theory Spec2Isabelle
  imports Main "HOL-Library.Word" "HOL-Library.Sublist"
begin

section \<open>Data model of \<open>patcher.py\<close>\<close>

text \<open>
  A Python \<open>bytes\<close> object is a list of 8-bit words. A Python \<open>str\<close> that is
  encoded by the program (the patch description) is the list of its Unicode code
  points, because \<open>str.encode('ascii')\<close> distinguishes code points below 128 from
  all others. File paths are only concatenated with a literal and used to name
  files, so they are plain strings.
\<close>

type_synonym byte = "8 word"
type_synonym bytes = "byte list"
type_synonym pystr = "nat list"
type_synonym path = string

text \<open>One entry of \<open>PATCH_CONFIG\<close>: a dictionary with the three keys the program reads.\<close>

record patch_info =
  description :: pystr
  target :: bytes
  replacement :: bytes

definition str :: "string \<Rightarrow> pystr" where
  "str cs = map of_char cs"

subsection \<open>The patch catalog (lines 20 to 71)\<close>

definition PATCH_CONFIG :: "patch_info list" where
  "PATCH_CONFIG =
   [ \<lparr> description = str ''U-2023.03-SP1'',
       target = [0x41, 0x55, 0x41, 0x54, 0x55, 0x53, 0x48, 0x83, 0xec, 0x08, 0x44, 0x8b, 0x25, 0x67, 0xec, 0xdf, 0x00],
       replacement = [0xb8, 0x01, 0x00, 0x00, 0x00, 0xc3, 0x48, 0x83, 0xec, 0x08, 0x44, 0x8b, 0x25, 0x67, 0xec, 0xdf, 0x00] \<rparr>,
     \<lparr> description = str ''U-2023.03-SP2'',
       target = [0x41, 0x55, 0x41, 0x54, 0x55, 0x53, 0x48, 0x83, 0xec, 0x08, 0x44, 0x8b, 0x25, 0x57, 0x06, 0xe0, 0x00],
       replacement = [0xb8, 0x01, 0x00, 0x00, 0x00, 0xc3, 0x48, 0x83, 0xec, 0x08, 0x44, 0x8b, 0x25, 0x57, 0x06, 0xe0, 0x00] \<rparr>,
     \<lparr> description = str ''U-2023.12-SP1'',
       target = [0x41, 0x55, 0x41, 0x54, 0x55, 0x53, 0x48, 0x83, 0xec, 0x08, 0x44, 0x8b, 0x25, 0x47, 0xd0, 0xee, 0x00],
       replacement = [0xb8, 0x01, 0x00, 0x00, 0x00, 0xc3, 0x48, 0x83, 0xec, 0x08, 0x44, 0x8b, 0x25, 0x47, 0xd0, 0xee, 0x00] \<rparr>,
     \<lparr> description = str ''U-2023.12-SP2'',
       target = [0x41, 0x55, 0x41, 0x54, 0x55, 0x53, 0x48, 0x83, 0xec, 0x08, 0x44, 0x8b, 0x25, 0x07, 0x0c, 0xef, 0x00],
       replacement = [0xb8, 0x01, 0x00, 0x00, 0x00, 0xc3, 0x48, 0x83, 0xec, 0x08, 0x44, 0x8b, 0x25, 0x07, 0x0c, 0xef, 0x00] \<rparr>,
     \<lparr> description = str ''W-2024.09'',
       target = [0x55, 0x48, 0x89, 0xe5, 0x48, 0x81, 0xec, 0x80, 0x01, 0x00, 0x00],
       replacement = [0x31, 0xc0, 0xc3, 0xe5, 0x48, 0x81, 0xec, 0x80, 0x01, 0x00, 0x00] \<rparr>,
     \<lparr> description = str ''W-2024.09-SP1'',
       target = [0x55, 0x48, 0x89, 0xe5, 0x48, 0x81, 0xec, 0x80, 0x01, 0x00, 0x00],
       replacement = [0x31, 0xc0, 0xc3, 0xe5, 0x48, 0x81, 0xec, 0x80, 0x01, 0x00, 0x00] \<rparr>,
     \<lparr> description = str ''W-2024.09-SP2'',
       target = [0x55, 0x48, 0x89, 0xe5, 0x48, 0x81, 0xec, 0x80, 0x01, 0x00, 0x00],
       replacement = [0x31, 0xc0, 0xc3, 0xe5, 0x48, 0x81, 0xec, 0x80, 0x01, 0x00, 0x00] \<rparr>,
     \<lparr> description = str ''X-2025.06'',
       target = [0x55, 0x48, 0x89, 0xe5, 0x48, 0x81, 0xec, 0x80, 0x01, 0x00, 0x00],
       replacement = [0x31, 0xc0, 0xc3, 0xe5, 0x48, 0x81, 0xec, 0x80, 0x01, 0x00, 0x00] \<rparr>,
     \<lparr> description = str ''X-2025.06-SP1'',
       target = [0x55, 0x48, 0x89, 0xe5, 0x48, 0x81, 0xec, 0x80, 0x01, 0x00, 0x00],
       replacement = [0x31, 0xc0, 0xc3, 0xe5, 0x48, 0x81, 0xec, 0x80, 0x01, 0x00, 0x00] \<rparr> ]"

section \<open>The Python operations on \<open>bytes\<close> and \<open>str\<close> that \<open>apply_patch\<close> uses\<close>

text \<open>
  \<open>data.find(sub)\<close>: the lowest index at which \<open>sub\<close> starts in \<open>data\<close>, with
  \<open>None\<close> for Python's \<open>-1\<close>. The empty pattern is found at index 0.
\<close>

fun find_bytes :: "bytes \<Rightarrow> bytes \<Rightarrow> nat option" where
  "find_bytes [] sub = (if sub = [] then Some 0 else None)"
| "find_bytes (x # xs) sub =
     (if prefix sub (x # xs) then Some 0 else map_option Suc (find_bytes xs sub))"

text \<open>\<open>sub in data\<close> on \<open>bytes\<close>: \<open>sub\<close> occurs as a contiguous run somewhere in \<open>data\<close>.\<close>

definition bytes_in :: "bytes \<Rightarrow> bytes \<Rightarrow> bool" where
  "bytes_in sub data = (find_bytes data sub \<noteq> None)"

text \<open>
  \<open>data.count(sub)\<close>: the number of non-overlapping occurrences, scanning from the
  left and resuming after each match; the empty pattern is counted
  \<open>len(data) + 1\<close> times.
\<close>

function count_bytes :: "bytes \<Rightarrow> bytes \<Rightarrow> nat" where
  "count_bytes data sub =
     (if sub = [] then length data + 1
      else case find_bytes data sub of
             None \<Rightarrow> 0
           | Some i \<Rightarrow> 1 + count_bytes (drop (i + length sub) data) sub)"
  by pat_completeness auto
termination
proof (relation "measure (\<lambda>(data, sub). length data)")
  show "wf (measure (\<lambda>(data, sub). length data))" by simp
next
  fix data sub :: bytes and i
  assume sub: "sub \<noteq> []" and found: "find_bytes data sub = Some i"
  from sub found have "data \<noteq> []"
    by (cases data) simp_all
  with sub have "length data - (i + length sub) < length data"
    by (cases data; cases sub) simp_all
  then show "((drop (i + length sub) data, sub), (data, sub)) \<in> measure (\<lambda>(data, sub). length data)"
    by simp
qed

declare count_bytes.simps [simp del]

text \<open>
  \<open>data.replace(old, new, 1)\<close>: the leftmost occurrence of \<open>old\<close> is replaced by
  \<open>new\<close>; without an occurrence the data is returned as it is. (An empty \<open>old\<close>
  is found at index 0, so \<open>new\<close> is put in front; \<open>apply_patch\<close> never gets there,
  because an empty target with a replacement of the same length is answered at the
  already-patched check.)
\<close>

definition replace_first :: "bytes \<Rightarrow> bytes \<Rightarrow> bytes \<Rightarrow> bytes" where
  "replace_first data old new =
     (case find_bytes data old of
        None \<Rightarrow> data
      | Some i \<Rightarrow> take i data @ new @ drop (i + length old) data)"

text \<open>
  \<open>s.encode('ascii')\<close>: every code point below 128 becomes one byte; any other code
  point raises \<open>UnicodeEncodeError\<close>, which is \<open>None\<close> here.
\<close>

definition encode_ascii :: "pystr \<Rightarrow> bytes option" where
  "encode_ascii s = (if list_all (\<lambda>c. c < 128) s then Some (map of_nat s) else None)"

section \<open>The file system as \<open>apply_patch\<close> sees it\<close>

text \<open>
  A path names nothing (\<open>open\<close> raises \<open>FileNotFoundError\<close>), a regular file with
  its content, or something that cannot be read (a directory, a file without read
  permission: \<open>open\<close> or \<open>read\<close> raises another \<open>IOError\<close>).
\<close>

datatype node = Regular bytes | Unreadable

datatype io_error = FileNotFoundError | IOError

text \<open>
  What the environment does to an attempt to write a path: \<open>open(p, 'wb')\<close> is
  refused and nothing is created, or the file is created and \<open>write\<close> fails after
  the first \<open>n\<close> bytes. Both raise \<open>IOError\<close>.
\<close>

datatype write_fault = OpenRefused | WriteFails nat

datatype io_event = OpenRead path | OpenWrite path

text \<open>
  The state. A file can have several names (hard links, symbolic links), and \<open>open\<close>
  follows them: \<open>links\<close> sends a name to the name under which \<open>store\<close> keeps the file,
  and a name that is not in \<open>links\<close> stands for itself. Two names are names of one
  file when they resolve to the same name. Beside the files there are the faults the
  environment will answer writes with, and the log of every \<open>open\<close> call made so far
  (attempts included, each with the path as the program gave it).
\<close>

record fs =
  store :: "path \<rightharpoonup> node"
  links :: "path \<rightharpoonup> path"
  faults :: "path \<rightharpoonup> write_fault"
  trace :: "io_event list"

definition resolve :: "fs \<Rightarrow> path \<Rightarrow> path" where
  "resolve s p = (case links s p of None \<Rightarrow> p | Some q \<Rightarrow> q)"

text \<open>What a path names on disk.\<close>

definition files :: "fs \<Rightarrow> path \<rightharpoonup> node" where
  "files s p = store s (resolve s p)"

text \<open>\<open>with open(p, 'rb') as f: f.read()\<close>\<close>

definition read_file :: "path \<Rightarrow> fs \<Rightarrow> (io_error + bytes) \<times> fs" where
  "read_file p s =
     (case files s p of
        None \<Rightarrow> Inl FileNotFoundError
      | Some Unreadable \<Rightarrow> Inl IOError
      | Some (Regular content) \<Rightarrow> Inr content,
      s\<lparr>trace := trace s @ [OpenRead p]\<rparr>)"

text \<open>
  \<open>with open(p, 'wb') as f: f.write(content)\<close>; \<open>Inl\<close> is the \<open>IOError\<close> raised. The file
  written is the one that \<open>p\<close> resolves to: an existing file is truncated and rewritten
  under all its names, and a name that resolves to no file gets a new one.
\<close>

definition write_file :: "path \<Rightarrow> bytes \<Rightarrow> fs \<Rightarrow> (io_error + unit) \<times> fs" where
  "write_file p content s =
     (let s' = s\<lparr>trace := trace s @ [OpenWrite p]\<rparr> in
      case faults s p of
        None \<Rightarrow> (Inr (), s'\<lparr>store := (store s)(resolve s p \<mapsto> Regular content)\<rparr>)
      | Some OpenRefused \<Rightarrow> (Inl IOError, s')
      | Some (WriteFails n) \<Rightarrow>
          (Inl IOError, s'\<lparr>store := (store s)(resolve s p \<mapsto> Regular (take n content))\<rparr>))"

section \<open>\<open>apply_patch\<close> (lines 108 to 183)\<close>

text \<open>
  The function returns a boolean and tells its exits apart by the message it
  prints. The model names each exit after the error taxonomy of the
  specification and keeps the boolean as \<open>returned\<close>. The two handlers of the read
  (\<open>FileNotFoundError\<close>, \<open>IOError\<close>) are one exit that carries the exception caught;
  the ambiguous exit carries the occurrence count it prints; the successful exit
  carries the output path it prints.
\<close>

datatype outcome =
    InvalidDescriptor
  | FileUnreadable io_error
  | VersionMismatch
  | AlreadyPatched
  | PatternNotFound
  | AmbiguousMatch nat
  | NoEffectiveChange
  | OutputWriteFailed
  | Success path

fun returned :: "outcome \<Rightarrow> bool" where
  "returned AlreadyPatched = True"
| "returned (Success output_path) = True"
| "returned other = False"

text \<open>An exception that no handler of \<open>apply_patch\<close> catches leaves the function.\<close>

datatype py_exception = UnicodeEncodeError

definition apply_patch :: "path \<Rightarrow> patch_info \<Rightarrow> fs \<Rightarrow> (py_exception + outcome) \<times> fs" where
  "apply_patch file_path patch_info s =
     (let target_bytes = target patch_info;
          replacement_bytes = replacement patch_info;
          version_string = description patch_info
      in
      if length target_bytes \<noteq> length replacement_bytes then (Inr InvalidDescriptor, s)
      else
        case read_file file_path s of
          (Inl e, s1) \<Rightarrow> (Inr (FileUnreadable e), s1)
        | (Inr original_data, s1) \<Rightarrow>
            (case encode_ascii version_string of
               None \<Rightarrow> (Inl UnicodeEncodeError, s1)
             | Some version_bytes \<Rightarrow>
                 if \<not> bytes_in version_bytes original_data then (Inr VersionMismatch, s1)
                 else if bytes_in replacement_bytes original_data then (Inr AlreadyPatched, s1)
                 else
                   let occurrence_count = count_bytes original_data target_bytes in
                   if occurrence_count = 0 then (Inr PatternNotFound, s1)
                   else if occurrence_count > 1 then (Inr (AmbiguousMatch occurrence_count), s1)
                   else
                     let patched_data = replace_first original_data target_bytes replacement_bytes in
                     if patched_data = original_data then (Inr NoEffectiveChange, s1)
                     else
                       let output_path = file_path @ ''.patched'' in
                       case write_file output_path patched_data s1 of
                         (Inr u, s2) \<Rightarrow> (Inr (Success output_path), s2)
                       | (Inl e, s2) \<Rightarrow> (Inr OutputWriteFailed, s2)))"

section \<open>Sample inputs\<close>

text \<open>A disk that holds one library file under one name and lets every write through.\<close>

definition disk :: "bytes \<Rightarrow> fs" where
  "disk content =
     \<lparr> store = [''libcovdb.so'' \<mapsto> Regular content], links = Map.empty,
       faults = Map.empty, trace = [] \<rparr>"

text \<open>The same disk in a directory that refuses the creation of the output file.\<close>

definition locked_disk :: "bytes \<Rightarrow> fs" where
  "locked_disk content =
     \<lparr> store = [''libcovdb.so'' \<mapsto> Regular content], links = Map.empty,
       faults = [''libcovdb.so.patched'' \<mapsto> OpenRefused],
       trace = [] \<rparr>"

text \<open>A disk on which the output path is already there, as a link to the library file.\<close>

definition linked_disk :: "bytes \<Rightarrow> fs" where
  "linked_disk content =
     \<lparr> store = [''libcovdb.so'' \<mapsto> Regular content],
       links = [''libcovdb.so.patched'' \<mapsto> ''libcovdb.so''],
       faults = Map.empty, trace = [] \<rparr>"

text \<open>A small descriptor: label \<open>AB\<close>, target \<open>BC\<close>, replacement \<open>XY\<close>.\<close>

definition toy_patch :: patch_info where
  "toy_patch = \<lparr> description = [0x41, 0x42], target = [0x42, 0x43], replacement = [0x58, 0x59] \<rparr>"

text \<open>
  A stand-in for a library of release X-2025.06: the version string, and further on
  the instruction bytes that the catalog entry of that release looks for.
\<close>

definition x2025_library :: bytes where
  "x2025_library =
     [0x7f, 0x58, 0x2d, 0x32, 0x30, 0x32, 0x35, 0x2e, 0x30, 0x36, 0x00,
      0x55, 0x48, 0x89, 0xe5, 0x48, 0x81, 0xec, 0x80, 0x01, 0x00, 0x00, 0xc3]"

section \<open>Facts about the byte operations\<close>

lemma find_bytes_Some:
  "find_bytes data sub = Some i \<Longrightarrow> prefix sub (drop i data) \<and> i + length sub \<le> length data"
proof (induction data arbitrary: i)
  case Nil
  then show ?case by (simp split: if_splits)
next
  case (Cons x xs)
  show ?case
  proof (cases "prefix sub (x # xs)")
    case True
    with Cons.prems prefix_length_le [of sub "x # xs"] show ?thesis by simp
  next
    case False
    with Cons.prems obtain j where j: "find_bytes xs sub = Some j" "i = Suc j"
      by auto
    from Cons.IH [OF j(1)] j(2) show ?thesis by simp
  qed
qed


lemma find_bytes_append: "\<exists>i. find_bytes (ps @ sub @ ss) sub = Some i \<and> i \<le> length ps"
proof (induction ps)
  case Nil
  show ?case by (cases "sub @ ss") (simp_all, metis prefixI)
next
  case (Cons x ps)
  then obtain i where "find_bytes (ps @ sub @ ss) sub = Some i" and "i \<le> length ps"
    by blast
  then show ?case by simp
qed

lemma bytes_in_iff_sublist: "bytes_in sub data \<longleftrightarrow> sublist sub data"
proof
  assume "bytes_in sub data"
  then obtain i where "find_bytes data sub = Some i"
    by (auto simp: bytes_in_def)
  then have "prefix sub (drop i data)"
    using find_bytes_Some by blast
  then obtain ss where "drop i data = sub @ ss"
    by (auto simp: prefix_def)
  then have "data = take i data @ sub @ ss"
    by (metis append_take_drop_id)
  then show "sublist sub data"
    unfolding sublist_def by blast
next
  assume "sublist sub data"
  then obtain ps ss where "data = ps @ sub @ ss"
    by (auto simp: sublist_def)
  with find_bytes_append [of ps sub ss] show "bytes_in sub data"
    by (auto simp: bytes_in_def)
qed

lemma find_bytes_split:
  assumes "find_bytes data sub = Some i"
  shows "data = take i data @ sub @ drop (i + length sub) data"
proof -
  from assms have "prefix sub (drop i data)"
    using find_bytes_Some by blast
  then obtain ss where ss: "drop i data = sub @ ss"
    by (auto simp: prefix_def)
  have "drop (i + length sub) data = drop (length sub) (drop i data)"
    by (simp add: add.commute)
  with ss have "drop (i + length sub) data = ss"
    by simp
  with ss show ?thesis
    by (metis append_take_drop_id)
qed

lemma replace_first_length:
  assumes "length old = length new"
  shows "length (replace_first data old new) = length data"
proof (cases "find_bytes data old")
  case None
  then show ?thesis by (simp add: replace_first_def)
next
  case (Some i)
  then have "i + length old \<le> length data"
    using find_bytes_Some by blast
  with Some assms show ?thesis
    by (simp add: replace_first_def)
qed

lemma replace_first_contains:
  assumes "find_bytes data old = Some i"
  shows "bytes_in new (replace_first data old new)"
  using assms by (simp add: replace_first_def bytes_in_iff_sublist)

lemma count_bytes_pos:
  assumes "0 < count_bytes data sub"
  shows "\<exists>i. find_bytes data sub = Some i"
proof (cases "sub = []")
  case True
  then show ?thesis by (cases data) simp_all
next
  case False
  with assms show ?thesis
    by (cases "find_bytes data sub") (simp_all add: count_bytes.simps)
qed

lemma replace_first_differs:
  assumes "\<not> bytes_in new data" and "0 < count_bytes data old"
  shows "replace_first data old new \<noteq> data"
proof
  assume same: "replace_first data old new = data"
  from assms(2) obtain i where "find_bytes data old = Some i"
    using count_bytes_pos by blast
  then have "bytes_in new (replace_first data old new)"
    by (rule replace_first_contains)
  with same assms(1) show False by simp
qed

lemma find_bytes_least:
  assumes "find_bytes data sub = Some i" and "prefix sub (drop m data)"
  shows "i \<le> m"
  using assms
proof (induction data arbitrary: i m)
  case Nil
  then show ?case by (simp split: if_splits)
next
  case (Cons x xs)
  show ?case
  proof (cases "prefix sub (x # xs)")
    case True
    with Cons.prems show ?thesis by simp
  next
    case False
    with Cons.prems(1) obtain j where j: "find_bytes xs sub = Some j" "i = Suc j"
      by auto
    from False Cons.prems(2) obtain m' where m': "m = Suc m'"
      by (cases m) simp_all
    with Cons.prems(2) have "prefix sub (drop m' xs)"
      by simp
    with Cons.IH [OF j(1)] have "j \<le> m'" .
    with j(2) m' show ?thesis by simp
  qed
qed

lemma find_bytes_drop_Some:
  assumes "find_bytes (drop k data) sub = Some j"
  shows "\<exists>i. find_bytes data sub = Some i \<and> i \<le> k + j"
proof -
  from assms have p: "prefix sub (drop (k + j) data)"
    using find_bytes_Some [of "drop k data" sub j] by (simp add: add.commute)
  from assms have "sublist sub (drop k data)"
    using bytes_in_iff_sublist [of sub "drop k data"] by (simp add: bytes_in_def)
  then have "sublist sub data"
    by (metis sublist_drop sublist_order.order_trans)
  then obtain i where i: "find_bytes data sub = Some i"
    using bytes_in_iff_sublist [of sub data] by (auto simp: bytes_in_def)
  with p find_bytes_least show ?thesis
    by blast
qed

lemma count_bytes_drop_le: "count_bytes (drop k data) sub \<le> count_bytes data sub"
proof (induction data sub arbitrary: k rule: count_bytes.induct)
  case (1 data sub)
  show ?case
  proof (cases "sub = []")
    case True
    then show ?thesis by (simp add: count_bytes.simps)
  next
    case nonempty: False
    show ?thesis
    proof (cases "find_bytes (drop k data) sub")
      case None
      with nonempty show ?thesis
        by (simp add: count_bytes.simps [of "drop k data"])
    next
      case (Some j)
      then obtain i where i: "find_bytes data sub = Some i" "i \<le> k + j"
        using find_bytes_drop_Some by blast
      have "j + length sub + k = k + j - i + (i + length sub)"
        using i(2) by simp
      then have "drop (j + length sub) (drop k data) = drop (k + j - i) (drop (i + length sub) data)"
        by (simp only: drop_drop)
      moreover have "count_bytes (drop (k + j - i) (drop (i + length sub) data)) sub
          \<le> count_bytes (drop (i + length sub) data) sub"
        using "1.IH" [OF nonempty i(1)] .
      ultimately show ?thesis
        using nonempty Some i(1)
        by (simp add: count_bytes.simps [of "drop k data"] count_bytes.simps [of data])
    qed
  qed
qed

lemma count_bytes_two:
  assumes "sub \<noteq> []"
  shows "2 \<le> count_bytes (a @ sub @ b @ sub @ c) sub"
proof -
  let ?data = "a @ sub @ b @ sub @ c"
  obtain i where i: "find_bytes ?data sub = Some i" "i \<le> length a"
    using find_bytes_append [of a sub "b @ sub @ c"] by blast
  obtain j where j: "find_bytes (b @ sub @ c) sub = Some j"
    using find_bytes_append [of b sub c] by blast
  have "length a - i + (i + length sub) = length (a @ sub)"
    using i(2) by simp
  then have "drop (length a - i) (drop (i + length sub) ?data) = drop (length (a @ sub)) ((a @ sub) @ b @ sub @ c)"
    by (simp only: drop_drop append_assoc)
  also have "\<dots> = b @ sub @ c"
    by (simp only: append_eq_conv_conj [THEN iffD1, OF refl, THEN conjunct2, symmetric])
  finally have rest: "drop (length a - i) (drop (i + length sub) ?data) = b @ sub @ c" .
  have "count_bytes (drop (length a - i) (drop (i + length sub) ?data)) sub
      \<le> count_bytes (drop (i + length sub) ?data) sub"
    by (rule count_bytes_drop_le)
  then have "count_bytes (b @ sub @ c) sub \<le> count_bytes (drop (i + length sub) ?data) sub"
    unfolding rest .
  moreover have "1 \<le> count_bytes (b @ sub @ c) sub"
    using assms j by (simp add: count_bytes.simps [of "b @ sub @ c"])
  moreover have "count_bytes ?data sub = 1 + count_bytes (drop (i + length sub) ?data) sub"
    using assms i(1) by (simp add: count_bytes.simps [of ?data])
  ultimately show ?thesis by simp
qed

lemma count_bytes_two_split:
  assumes "sub \<noteq> []" and "2 \<le> count_bytes data sub"
  shows "\<exists>a b c. data = a @ sub @ b @ sub @ c"
proof -
  from assms obtain i where i: "find_bytes data sub = Some i"
    using count_bytes_pos [of data sub] by auto
  let ?rest = "drop (i + length sub) data"
  from assms i have "1 \<le> count_bytes ?rest sub"
    by (simp add: count_bytes.simps [of data])
  then obtain j where j: "find_bytes ?rest sub = Some j"
    using count_bytes_pos [of ?rest sub] by auto
  have "data = take i data @ sub @ ?rest"
    using i by (rule find_bytes_split)
  moreover have "?rest = take j ?rest @ sub @ drop (j + length sub) ?rest"
    using j by (rule find_bytes_split)
  ultimately have "data = take i data @ sub @ take j ?rest @ sub @ drop (j + length sub) ?rest"
    by simp
  then show ?thesis by blast
qed

lemma count_bytes_ge_two_iff:
  assumes "sub \<noteq> []"
  shows "2 \<le> count_bytes data sub \<longleftrightarrow> (\<exists>a b c. data = a @ sub @ b @ sub @ c)"
  using assms count_bytes_two count_bytes_two_split by blast

lemma count_bytes_one_iff:
  assumes "sub \<noteq> []"
  shows "count_bytes data sub = 1 \<longleftrightarrow>
     sublist sub data \<and> \<not> (\<exists>a b c. data = a @ sub @ b @ sub @ c)"
proof -
  have "1 \<le> count_bytes data sub \<longleftrightarrow> bytes_in sub data"
    using assms by (cases "find_bytes data sub") (simp_all add: count_bytes.simps [of data] bytes_in_def)
  moreover have "count_bytes data sub = 1 \<longleftrightarrow> 1 \<le> count_bytes data sub \<and> \<not> 2 \<le> count_bytes data sub"
    by arith
  ultimately show ?thesis
    using count_bytes_ge_two_iff [OF assms, of data] by (simp add: bytes_in_iff_sublist)
qed

section \<open>Facts about the file system\<close>

lemma resolve_trace [simp]: "resolve (s\<lparr>trace := t\<rparr>) = resolve s"
  by (simp add: fun_eq_iff resolve_def)

lemma resolve_store [simp]: "resolve (s\<lparr>store := m\<rparr>) = resolve s"
  by (simp add: fun_eq_iff resolve_def)

lemma files_trace [simp]: "files (s\<lparr>trace := t\<rparr>) = files s"
  by (simp add: fun_eq_iff files_def)

lemma files_store [simp]: "files (s\<lparr>store := m\<rparr>) p = m (resolve s p)"
  by (simp add: files_def)

lemma store_resolve: "store s (resolve s p) = files s p"
  by (simp add: files_def)

section \<open>The gates of \<open>apply_patch\<close>\<close>

lemma apply_patch_read:
  assumes "length (target d) = length (replacement d)"
    and "files s p = Some (Regular data)"
  shows "apply_patch p d s =
     (let s1 = s\<lparr>trace := trace s @ [OpenRead p]\<rparr> in
      case encode_ascii (description d) of
        None \<Rightarrow> (Inl UnicodeEncodeError, s1)
      | Some version_bytes \<Rightarrow>
          if \<not> bytes_in version_bytes data then (Inr VersionMismatch, s1)
          else if bytes_in (replacement d) data then (Inr AlreadyPatched, s1)
          else if count_bytes data (target d) = 0 then (Inr PatternNotFound, s1)
          else if count_bytes data (target d) > 1
            then (Inr (AmbiguousMatch (count_bytes data (target d))), s1)
          else case write_file (p @ ''.patched'') (replace_first data (target d) (replacement d)) s1 of
                 (Inr u, s2) \<Rightarrow> (Inr (Success (p @ ''.patched'')), s2)
               | (Inl e, s2) \<Rightarrow> (Inr OutputWriteFailed, s2))"
  using assms replace_first_differs [of "replacement d" data "target d"]
  by (simp add: apply_patch_def read_file_def Let_def split: option.splits)

lemma bytes_in_Nil: "bytes_in [] data"
  by (cases data) (simp_all add: bytes_in_def)

lemma apply_patch_unreadable:
  assumes "length (target d) = length (replacement d)"
    and "\<forall>data. files s p \<noteq> Some (Regular data)"
  shows "\<exists>e. apply_patch p d s = (Inr (FileUnreadable e), s\<lparr>trace := trace s @ [OpenRead p]\<rparr>)"
  using assms
  by (auto simp: apply_patch_def read_file_def split: option.splits node.splits)

lemma apply_patch_SuccessD:
  assumes "fst (apply_patch p d s) = Inr (Success out)"
  shows "\<exists>data label.
      length (target d) = length (replacement d)
    \<and> files s p = Some (Regular data)
    \<and> encode_ascii (description d) = Some label
    \<and> bytes_in label data
    \<and> \<not> bytes_in (replacement d) data
    \<and> count_bytes data (target d) = 1
    \<and> faults s (p @ ''.patched'') = None
    \<and> out = p @ ''.patched''
    \<and> snd (apply_patch p d s) =
        s\<lparr>trace := trace s @ [OpenRead p, OpenWrite out],
          store := (store s)(resolve s out \<mapsto> Regular (replace_first data (target d) (replacement d)))\<rparr>"
proof -
  from assms have len: "length (target d) = length (replacement d)"
    by (auto simp: apply_patch_def Let_def split: if_splits)
  from assms len obtain data where rd: "files s p = Some (Regular data)"
  proof (cases "files s p")
    case None
    with assms len show ?thesis
      by (simp add: apply_patch_def read_file_def)
  next
    case (Some n)
    with assms len that show ?thesis
      by (cases n) (simp_all add: apply_patch_def read_file_def)
  qed
  from assms show ?thesis
    unfolding apply_patch_read [OF len rd]
    by (auto simp: Let_def write_file_def len rd split: option.splits if_splits write_fault.splits)
qed


section \<open>The claims\<close>

text \<open>
  C5. A descriptor whose target and replacement differ in length is rejected with
  \<open>InvalidDescriptor\<close> (the function returns \<open>False\<close>) before any file is touched:
  the state, with its log of \<open>open\<close> calls, comes back as it was, and the result is the
  same on every file system \<open>s'\<close>.
\<close>

theorem apply_patch_invalid_descriptor:
  assumes "length (target d) \<noteq> length (replacement d)"
  shows "apply_patch p d s = (Inr InvalidDescriptor, s)
       \<and> trace (snd (apply_patch p d s)) = trace s
       \<and> fst (apply_patch p d s') = Inr InvalidDescriptor
       \<and> \<not> returned InvalidDescriptor"
  using assms by (simp add: apply_patch_def)

theorem apply_patch_invalid_descriptor_witness:
  "length (target (toy_patch\<lparr>replacement := [0x58]\<rparr>)) \<noteq> length (replacement (toy_patch\<lparr>replacement := [0x58]\<rparr>))
   \<and> fst (apply_patch ''libcovdb.so'' (toy_patch\<lparr>replacement := [0x58]\<rparr>) (disk [0x41, 0x42, 0x43])) = Inr InvalidDescriptor
   \<and> trace (snd (apply_patch ''libcovdb.so'' (toy_patch\<lparr>replacement := [0x58]\<rparr>) (disk [0x41, 0x42, 0x43]))) = []"
proof -
  have h: "length (target (toy_patch\<lparr>replacement := [0x58]\<rparr>)) \<noteq> length (replacement (toy_patch\<lparr>replacement := [0x58]\<rparr>))"
    by (simp add: toy_patch_def)
  from apply_patch_invalid_descriptor [OF h, of "''libcovdb.so''" "disk [0x41, 0x42, 0x43]"] h
  show ?thesis by (simp add: disk_def files_def resolve_def)
qed

text \<open>
  C6. With equal-length patterns, a readable file and a label that \<open>encode('ascii')\<close>
  accepts, a buffer in which the encoded label does not occur gives \<open>VersionMismatch\<close>,
  whatever the buffer holds of the target; this exit is not the \<open>PatternNotFound\<close> exit.
  By \<open>bytes_in_iff_sublist\<close>, \<open>bytes_in\<close> is occurrence as a contiguous run.
\<close>

theorem apply_patch_version_mismatch:
  assumes "length (target d) = length (replacement d)"
    and "files s p = Some (Regular data)"
    and "encode_ascii (description d) = Some label"
    and "\<not> bytes_in label data"
  shows "apply_patch p d s = (Inr VersionMismatch, s\<lparr>trace := trace s @ [OpenRead p]\<rparr>)
       \<and> \<not> returned VersionMismatch
       \<and> VersionMismatch \<noteq> PatternNotFound"
  using assms by (simp add: apply_patch_read)

theorem apply_patch_version_mismatch_witness:
  "fst (apply_patch ''libcovdb.so'' toy_patch (disk [0x41, 0x00, 0x42, 0x43])) = Inr VersionMismatch"
proof -
  have "length (target toy_patch) = length (replacement toy_patch)"
    and "files (disk [0x41, 0x00, 0x42, 0x43]) ''libcovdb.so'' = Some (Regular [0x41, 0x00, 0x42, 0x43])"
    and "encode_ascii (description toy_patch) = Some [0x41, 0x42]"
    and "\<not> bytes_in [0x41, 0x42] [0x41, 0x00, 0x42, 0x43]"
    by (simp_all add: toy_patch_def disk_def files_def resolve_def encode_ascii_def bytes_in_def)
  from apply_patch_version_mismatch [OF this] show ?thesis by simp
qed

text \<open>
  C3. With equal-length patterns and a buffer that passes the version-marker gate, a
  buffer in which the replacement already occurs gives \<open>AlreadyPatched\<close>, the
  function returns \<open>True\<close>, and no file is created or changed. Nothing is assumed about
  the occurrences of the target: the check comes before the occurrence count.
\<close>

theorem apply_patch_already_patched:
  assumes "length (target d) = length (replacement d)"
    and "files s p = Some (Regular data)"
    and "encode_ascii (description d) = Some label"
    and "bytes_in label data"
    and "bytes_in (replacement d) data"
  shows "apply_patch p d s = (Inr AlreadyPatched, s\<lparr>trace := trace s @ [OpenRead p]\<rparr>)
       \<and> returned AlreadyPatched
       \<and> files (snd (apply_patch p d s)) = files s"
  using assms by (simp add: apply_patch_read)

theorem apply_patch_already_patched_witness:
  "count_bytes [0x41, 0x42, 0x43, 0x58, 0x59, 0x42, 0x43] (target toy_patch) = 2
   \<and> fst (apply_patch ''libcovdb.so'' toy_patch (disk [0x41, 0x42, 0x43, 0x58, 0x59, 0x42, 0x43])) = Inr AlreadyPatched
   \<and> files (snd (apply_patch ''libcovdb.so'' toy_patch (disk [0x41, 0x42, 0x43, 0x58, 0x59, 0x42, 0x43]))) ''libcovdb.so.patched'' = None"
proof -
  let ?data = "[0x41, 0x42, 0x43, 0x58, 0x59, 0x42, 0x43] :: bytes"
  have "length (target toy_patch) = length (replacement toy_patch)"
    and "files (disk ?data) ''libcovdb.so'' = Some (Regular ?data)"
    and "encode_ascii (description toy_patch) = Some [0x41, 0x42]"
    and "bytes_in [0x41, 0x42] ?data"
    and "bytes_in (replacement toy_patch) ?data"
    by (simp_all add: toy_patch_def disk_def files_def resolve_def encode_ascii_def bytes_in_def)
  from apply_patch_already_patched [OF this]
  show ?thesis by (simp add: disk_def files_def resolve_def toy_patch_def count_bytes.simps)
qed

text \<open>
  C10. With equal-length patterns and a readable file, a label that holds a code point
  of 128 or more makes \<open>encode('ascii')\<close> raise \<open>UnicodeEncodeError\<close>, which no handler
  catches: \<open>apply_patch\<close> ends with the exception and with no outcome \<open>out\<close> at all.
\<close>

theorem apply_patch_non_ascii_label:
  assumes "length (target d) = length (replacement d)"
    and "files s p = Some (Regular data)"
    and "c \<in> set (description d)" and "128 \<le> c"
  shows "apply_patch p d s = (Inl UnicodeEncodeError, s\<lparr>trace := trace s @ [OpenRead p]\<rparr>)
       \<and> fst (apply_patch p d s) \<noteq> Inr out"
proof -
  from assms(3,4) have "\<not> list_all (\<lambda>c. c < 128) (description d)"
    by (auto simp: list_all_iff not_less)
  then have "encode_ascii (description d) = None"
    by (simp add: encode_ascii_def)
  with assms(1,2) show ?thesis
    by (simp add: apply_patch_read)
qed

theorem apply_patch_non_ascii_label_witness:
  "fst (apply_patch ''libcovdb.so'' (toy_patch\<lparr>description := [0x41, 0xe9]\<rparr>) (disk [0x41, 0x42, 0x43]))
     = Inl UnicodeEncodeError"
proof -
  let ?d = "toy_patch\<lparr>description := [0x41, 0xe9]\<rparr>"
  have "length (target ?d) = length (replacement ?d)"
    and "files (disk [0x41, 0x42, 0x43]) ''libcovdb.so'' = Some (Regular [0x41, 0x42, 0x43])"
    and "0xe9 \<in> set (description ?d)" and "(128::nat) \<le> 0xe9"
    by (simp_all add: toy_patch_def disk_def files_def resolve_def)
  from apply_patch_non_ascii_label [OF this] show ?thesis by simp
qed

text \<open>
  C9. The catalog has nine entries; target and replacement are 17 bytes each in the
  four U-2023 entries and 11 bytes each in the five W-2024 and X-2025 entries, so they
  are of equal length in every entry, and \<open>apply_patch\<close> never answers
  \<open>InvalidDescriptor\<close> to an entry of the catalog.
\<close>

theorem PATCH_CONFIG_length_parity:
  "map (\<lambda>d. (description d, length (target d), length (replacement d))) PATCH_CONFIG =
     [(str ''U-2023.03-SP1'', 17, 17), (str ''U-2023.03-SP2'', 17, 17),
      (str ''U-2023.12-SP1'', 17, 17), (str ''U-2023.12-SP2'', 17, 17),
      (str ''W-2024.09'', 11, 11), (str ''W-2024.09-SP1'', 11, 11), (str ''W-2024.09-SP2'', 11, 11),
      (str ''X-2025.06'', 11, 11), (str ''X-2025.06-SP1'', 11, 11)]
   \<and> (\<forall>d \<in> set PATCH_CONFIG. length (target d) = length (replacement d)
        \<and> (\<forall>p s. fst (apply_patch p d s) \<noteq> Inr InvalidDescriptor))"
proof
  show "map (\<lambda>d. (description d, length (target d), length (replacement d))) PATCH_CONFIG =
     [(str ''U-2023.03-SP1'', 17, 17), (str ''U-2023.03-SP2'', 17, 17),
      (str ''U-2023.12-SP1'', 17, 17), (str ''U-2023.12-SP2'', 17, 17),
      (str ''W-2024.09'', 11, 11), (str ''W-2024.09-SP1'', 11, 11), (str ''W-2024.09-SP2'', 11, 11),
      (str ''X-2025.06'', 11, 11), (str ''X-2025.06-SP1'', 11, 11)]"
    by (simp add: PATCH_CONFIG_def)
next
  have parity: "\<forall>d \<in> set PATCH_CONFIG. length (target d) = length (replacement d)"
    by (simp add: PATCH_CONFIG_def)
  have "fst (apply_patch p d s) \<noteq> Inr InvalidDescriptor"
    if "length (target d) = length (replacement d)" for p d s
    using that
    by (simp add: apply_patch_def read_file_def write_file_def Let_def
        split: option.splits node.splits write_fault.splits)
  with parity show "\<forall>d \<in> set PATCH_CONFIG. length (target d) = length (replacement d)
        \<and> (\<forall>p s. fst (apply_patch p d s) \<noteq> Inr InvalidDescriptor)"
    by blast
qed

theorem PATCH_CONFIG_length_parity_witness:
  "PATCH_CONFIG ! 7 \<in> set PATCH_CONFIG
   \<and> length (target (PATCH_CONFIG ! 7)) = length (replacement (PATCH_CONFIG ! 7))
   \<and> fst (apply_patch ''libcovdb.so'' (PATCH_CONFIG ! 7) (disk [])) \<noteq> Inr InvalidDescriptor"
proof -
  have h: "PATCH_CONFIG ! 7 \<in> set PATCH_CONFIG"
    by (simp add: PATCH_CONFIG_def)
  with PATCH_CONFIG_length_parity show ?thesis by blast
qed

text \<open>
  C7. When the replacement does not occur in the buffer and the target is counted
  once (the already-patched and single-occurrence gates; the other two gates are not
  needed), replacing the occurrence gives a buffer that differs from the original. So
  the check at line 171 never fires: \<open>apply_patch\<close> has the outcome \<open>NoEffectiveChange\<close>
  for no path, descriptor and file system.
\<close>

theorem no_effective_change_unreachable:
  "(\<not> bytes_in (replacement d) data \<and> count_bytes data (target d) = 1
      \<longrightarrow> replace_first data (target d) (replacement d) \<noteq> data)
   \<and> fst (apply_patch p d s) \<noteq> Inr NoEffectiveChange"
proof
  show "\<not> bytes_in (replacement d) data \<and> count_bytes data (target d) = 1
      \<longrightarrow> replace_first data (target d) (replacement d) \<noteq> data"
    using replace_first_differs [of "replacement d" data "target d"] by simp
next
  show "fst (apply_patch p d s) \<noteq> Inr NoEffectiveChange"
  proof (cases "length (target d) = length (replacement d)")
    case False
    then show ?thesis by (simp add: apply_patch_def)
  next
    case len: True
    show ?thesis
    proof (cases "\<exists>data. files s p = Some (Regular data)")
      case False
      with len apply_patch_unreadable [of d s p] show ?thesis by auto
    next
      case True
      then obtain data where "files s p = Some (Regular data)" by blast
      with len show ?thesis
        by (simp add: apply_patch_read Let_def write_file_def
            split: option.splits write_fault.splits)
    qed
  qed
qed

theorem no_effective_change_unreachable_witness:
  "\<not> bytes_in (replacement toy_patch) [0x41, 0x42, 0x00, 0x42, 0x43]
   \<and> count_bytes [0x41, 0x42, 0x00, 0x42, 0x43] (target toy_patch) = 1
   \<and> replace_first [0x41, 0x42, 0x00, 0x42, 0x43] (target toy_patch) (replacement toy_patch)
       = [0x41, 0x42, 0x00, 0x58, 0x59]
   \<and> replace_first [0x41, 0x42, 0x00, 0x42, 0x43] (target toy_patch) (replacement toy_patch)
       \<noteq> [0x41, 0x42, 0x00, 0x42, 0x43]"
proof -
  have h: "\<not> bytes_in (replacement toy_patch) [0x41, 0x42, 0x00, 0x42, 0x43]
      \<and> count_bytes [0x41, 0x42, 0x00, 0x42, 0x43] (target toy_patch) = 1"
    by (simp add: toy_patch_def bytes_in_def count_bytes.simps)
  moreover have "replace_first [0x41, 0x42, 0x00, 0x42, 0x43] (target toy_patch) (replacement toy_patch)
       = [0x41, 0x42, 0x00, 0x58, 0x59]"
    by (simp add: toy_patch_def replace_first_def)
  moreover from h no_effective_change_unreachable [of toy_patch "[0x41, 0x42, 0x00, 0x42, 0x43]"]
  have "replace_first [0x41, 0x42, 0x00, 0x42, 0x43] (target toy_patch) (replacement toy_patch)
       \<noteq> [0x41, 0x42, 0x00, 0x42, 0x43]"
    by blast
  ultimately show ?thesis by blast
qed

text \<open>
  C8, as amended. On each of the failure exits that the claim lists (invalid
  descriptor, unreadable file, version mismatch, pattern not found, ambiguous match, no
  effective change) the files on disk are what they were and no file was opened for
  writing. On every outcome, the exception included, the original file keeps its
  content and no path that names it is opened for writing, provided the output path is
  not another name of the original file. (The exit \<open>OutputWriteFailed\<close> is not in the
  claim's list: there the output file can have been created before \<open>write\<close> failed.)
\<close>

theorem apply_patch_failure_frame:
  "(fst (apply_patch p d s) = Inr out
      \<and> (out = InvalidDescriptor \<or> (\<exists>e. out = FileUnreadable e) \<or> out = VersionMismatch
          \<or> out = PatternNotFound \<or> (\<exists>n. out = AmbiguousMatch n) \<or> out = NoEffectiveChange)
    \<longrightarrow> files (snd (apply_patch p d s)) = files s
        \<and> store (snd (apply_patch p d s)) = store s
        \<and> (\<exists>evs. trace (snd (apply_patch p d s)) = trace s @ evs \<and> (\<forall>q. OpenWrite q \<notin> set evs)))
   \<and> (resolve s (p @ ''.patched'') \<noteq> resolve s p
    \<longrightarrow> files (snd (apply_patch p d s)) p = files s p
        \<and> (\<exists>evs. trace (snd (apply_patch p d s)) = trace s @ evs
              \<and> (\<forall>q. OpenWrite q \<in> set evs \<longrightarrow> resolve s q \<noteq> resolve s p)))"
proof (cases "length (target d) = length (replacement d)")
  case False
  then show ?thesis by (simp add: apply_patch_def)
next
  case len: True
  show ?thesis
  proof (cases "\<exists>data. files s p = Some (Regular data)")
    case False
    with len apply_patch_unreadable [of d s p]
    obtain e where "apply_patch p d s = (Inr (FileUnreadable e), s\<lparr>trace := trace s @ [OpenRead p]\<rparr>)"
      by auto
    then show ?thesis by simp
  next
    case True
    then obtain data where "files s p = Some (Regular data)" by blast
    with len show ?thesis
      by (auto simp: apply_patch_read Let_def write_file_def store_resolve
          split: option.splits write_fault.splits)
  qed
qed

theorem apply_patch_failure_frame_witness:
  "fst (apply_patch ''libcovdb.so'' toy_patch (disk [0x41, 0x42, 0x42, 0x43, 0x42, 0x43])) = Inr (AmbiguousMatch 2)
   \<and> files (snd (apply_patch ''libcovdb.so'' toy_patch (disk [0x41, 0x42, 0x42, 0x43, 0x42, 0x43])))
       = files (disk [0x41, 0x42, 0x42, 0x43, 0x42, 0x43])
   \<and> resolve (disk [0x41, 0x42, 0x42, 0x43, 0x42, 0x43]) (''libcovdb.so'' @ ''.patched'')
       \<noteq> resolve (disk [0x41, 0x42, 0x42, 0x43, 0x42, 0x43]) ''libcovdb.so''
   \<and> files (snd (apply_patch ''libcovdb.so'' toy_patch (disk [0x41, 0x42, 0x42, 0x43, 0x42, 0x43]))) ''libcovdb.so''
       = files (disk [0x41, 0x42, 0x42, 0x43, 0x42, 0x43]) ''libcovdb.so''"
proof -
  have h: "fst (apply_patch ''libcovdb.so'' toy_patch (disk [0x41, 0x42, 0x42, 0x43, 0x42, 0x43])) = Inr (AmbiguousMatch 2)"
    by (simp add: apply_patch_def read_file_def toy_patch_def disk_def files_def resolve_def encode_ascii_def
        bytes_in_def count_bytes.simps Let_def)
  have apart: "resolve (disk [0x41, 0x42, 0x42, 0x43, 0x42, 0x43]) (''libcovdb.so'' @ ''.patched'')
       \<noteq> resolve (disk [0x41, 0x42, 0x42, 0x43, 0x42, 0x43]) ''libcovdb.so''"
    by (simp add: disk_def resolve_def)
  from h apart apply_patch_failure_frame [of "''libcovdb.so''" toy_patch
      "disk [0x41, 0x42, 0x42, 0x43, 0x42, 0x43]" "AmbiguousMatch 2"]
  show ?thesis by blast
qed

text \<open>
  C8 as stated does not hold. The output path is a link to the library file; every
  gate passes, \<open>open(output_path, 'wb')\<close> at line 177 follows the link, and the original
  file is opened for writing and rewritten.
\<close>

theorem apply_patch_writes_through_link:
  "resolve (linked_disk [0x41, 0x42, 0x00, 0x42, 0x43]) ''libcovdb.so.patched''
     = resolve (linked_disk [0x41, 0x42, 0x00, 0x42, 0x43]) ''libcovdb.so''
   \<and> files (linked_disk [0x41, 0x42, 0x00, 0x42, 0x43]) ''libcovdb.so''
       = Some (Regular [0x41, 0x42, 0x00, 0x42, 0x43])
   \<and> fst (apply_patch ''libcovdb.so'' toy_patch (linked_disk [0x41, 0x42, 0x00, 0x42, 0x43]))
       = Inr (Success ''libcovdb.so.patched'')
   \<and> trace (snd (apply_patch ''libcovdb.so'' toy_patch (linked_disk [0x41, 0x42, 0x00, 0x42, 0x43])))
       = [OpenRead ''libcovdb.so'', OpenWrite ''libcovdb.so.patched'']
   \<and> files (snd (apply_patch ''libcovdb.so'' toy_patch (linked_disk [0x41, 0x42, 0x00, 0x42, 0x43])))
         ''libcovdb.so''
       = Some (Regular [0x41, 0x42, 0x00, 0x58, 0x59])"
  by (simp add: apply_patch_def read_file_def write_file_def toy_patch_def linked_disk_def
      files_def resolve_def encode_ascii_def bytes_in_def count_bytes.simps replace_first_def Let_def)

text \<open>
  C1, as amended. With equal-length patterns, a readable file whose buffer holds the
  encoded label, does not hold the replacement and holds the target once by Python's
  count of non-overlapping occurrences (see \<open>count_bytes_one_iff\<close>), an output path
  that the environment lets the program create and write, and an output path that is
  not another name of the original file, \<open>apply_patch\<close> returns \<open>True\<close> through the
  success exit. The only file written is the one at the path plus \<open>.patched\<close>; its
  content \<open>out\<close> is as long as the input, equal to it before index \<open>i\<close> and from the end of
  the match on, and is the replacement where the input had the target; the original
  file, like every file that the output path does not name, is as it was.
\<close>

theorem apply_patch_success:
  assumes len: "length (target d) = length (replacement d)"
    and rd: "files s p = Some (Regular data)"
    and enc: "encode_ascii (description d) = Some label"
    and lab: "bytes_in label data"
    and fresh: "\<not> bytes_in (replacement d) data"
    and one: "count_bytes data (target d) = 1"
    and writable: "faults s (p @ ''.patched'') = None"
    and apart: "resolve s (p @ ''.patched'') \<noteq> resolve s p"
  shows "\<exists>i out.
      find_bytes data (target d) = Some i
    \<and> data = take i data @ target d @ drop (i + length (target d)) data
    \<and> out = take i data @ replacement d @ drop (i + length (target d)) data
    \<and> length out = length data
    \<and> apply_patch p d s =
        (Inr (Success (p @ ''.patched'')),
         s\<lparr>trace := trace s @ [OpenRead p, OpenWrite (p @ ''.patched'')],
           store := (store s)(resolve s (p @ ''.patched'') \<mapsto> Regular out)\<rparr>)
    \<and> returned (Success (p @ ''.patched''))
    \<and> files (snd (apply_patch p d s)) (p @ ''.patched'') = Some (Regular out)
    \<and> files (snd (apply_patch p d s)) p = Some (Regular data)
    \<and> (\<forall>q. resolve s q \<noteq> resolve s (p @ ''.patched'')
          \<longrightarrow> files (snd (apply_patch p d s)) q = files s q)"
proof -
  from one obtain i where i: "find_bytes data (target d) = Some i"
    using count_bytes_pos [of data "target d"] by auto
  define out where "out = take i data @ replacement d @ drop (i + length (target d)) data"
  from i have split: "data = take i data @ target d @ drop (i + length (target d)) data"
    by (rule find_bytes_split)
  from i out_def have out: "replace_first data (target d) (replacement d) = out"
    by (simp add: replace_first_def)
  with len have "length out = length data"
    using replace_first_length [of "target d" "replacement d" data] by simp
  moreover have result: "apply_patch p d s =
        (Inr (Success (p @ ''.patched'')),
         s\<lparr>trace := trace s @ [OpenRead p, OpenWrite (p @ ''.patched'')],
           store := (store s)(resolve s (p @ ''.patched'') \<mapsto> Regular out)\<rparr>)"
    using enc lab fresh one writable out
    by (simp add: apply_patch_read [OF len rd] write_file_def)
  moreover from result have "files (snd (apply_patch p d s)) (p @ ''.patched'') = Some (Regular out)"
    by simp
  moreover from result rd apart have "files (snd (apply_patch p d s)) p = Some (Regular data)"
    by (simp add: store_resolve)
  moreover from result have "\<forall>q. resolve s q \<noteq> resolve s (p @ ''.patched'')
          \<longrightarrow> files (snd (apply_patch p d s)) q = files s q"
    by (simp add: store_resolve)
  ultimately show ?thesis
    using i split out_def by auto
qed

theorem apply_patch_success_witness:
  "fst (apply_patch ''libcovdb.so'' (PATCH_CONFIG ! 7) (disk x2025_library))
     = Inr (Success ''libcovdb.so.patched'')
   \<and> files (snd (apply_patch ''libcovdb.so'' (PATCH_CONFIG ! 7) (disk x2025_library))) ''libcovdb.so.patched''
     = Some (Regular [0x7f, 0x58, 0x2d, 0x32, 0x30, 0x32, 0x35, 0x2e, 0x30, 0x36, 0x00,
                      0x31, 0xc0, 0xc3, 0xe5, 0x48, 0x81, 0xec, 0x80, 0x01, 0x00, 0x00, 0xc3])
   \<and> files (snd (apply_patch ''libcovdb.so'' (PATCH_CONFIG ! 7) (disk x2025_library))) ''libcovdb.so''
     = Some (Regular x2025_library)"
proof -
  let ?d = "PATCH_CONFIG ! 7"
  have "length (target ?d) = length (replacement ?d)"
    and "files (disk x2025_library) ''libcovdb.so'' = Some (Regular x2025_library)"
    and "encode_ascii (description ?d) = Some [0x58, 0x2d, 0x32, 0x30, 0x32, 0x35, 0x2e, 0x30, 0x36]"
    and "bytes_in [0x58, 0x2d, 0x32, 0x30, 0x32, 0x35, 0x2e, 0x30, 0x36] x2025_library"
    and "\<not> bytes_in (replacement ?d) x2025_library"
    and "count_bytes x2025_library (target ?d) = 1"
    and "faults (disk x2025_library) (''libcovdb.so'' @ ''.patched'') = None"
    and "resolve (disk x2025_library) (''libcovdb.so'' @ ''.patched'')
          \<noteq> resolve (disk x2025_library) ''libcovdb.so''"
    by (simp_all add: PATCH_CONFIG_def disk_def files_def resolve_def x2025_library_def
        encode_ascii_def str_def bytes_in_def count_bytes.simps)
  from apply_patch_success [OF this] obtain i out where
    found: "find_bytes x2025_library (target ?d) = Some i"
    and out: "out = take i x2025_library @ replacement ?d @ drop (i + length (target ?d)) x2025_library"
    and result: "apply_patch ''libcovdb.so'' ?d (disk x2025_library) =
        (Inr (Success (''libcovdb.so'' @ ''.patched'')),
         (disk x2025_library)\<lparr>trace := trace (disk x2025_library) @ [OpenRead ''libcovdb.so'', OpenWrite (''libcovdb.so'' @ ''.patched'')],
           store := (store (disk x2025_library))(resolve (disk x2025_library) (''libcovdb.so'' @ ''.patched'') \<mapsto> Regular out)\<rparr>)"
    by blast
  have "find_bytes x2025_library (target ?d) = Some 11"
    by (simp add: PATCH_CONFIG_def x2025_library_def)
  with found have "i = 11"
    by simp
  with out have "out = [0x7f, 0x58, 0x2d, 0x32, 0x30, 0x32, 0x35, 0x2e, 0x30, 0x36, 0x00,
                      0x31, 0xc0, 0xc3, 0xe5, 0x48, 0x81, 0xec, 0x80, 0x01, 0x00, 0x00, 0xc3]"
    by (simp add: PATCH_CONFIG_def x2025_library_def)
  with result show ?thesis
    by (simp add: disk_def files_def resolve_def)
qed

text \<open>
  C1 as stated does not hold, in two ways. On \<open>locked_disk\<close> every condition of the
  claim is met, but the directory refuses the creation of the output file, and
  \<open>apply_patch\<close> returns \<open>False\<close> through the handler at lines 181 to 183 without an output
  file. On \<open>linked_disk\<close> every condition is met and the write goes through, but the
  output path is a link to the original file, so the bytes of the original change.
\<close>

theorem apply_patch_success_counterexample:
  "length (target toy_patch) = length (replacement toy_patch)
   \<and> encode_ascii (description toy_patch) = Some [0x41, 0x42]
   \<and> bytes_in [0x41, 0x42] [0x41, 0x42, 0x00, 0x42, 0x43]
   \<and> \<not> bytes_in (replacement toy_patch) [0x41, 0x42, 0x00, 0x42, 0x43]
   \<and> count_bytes [0x41, 0x42, 0x00, 0x42, 0x43] (target toy_patch) = 1
   \<and> files (locked_disk [0x41, 0x42, 0x00, 0x42, 0x43]) ''libcovdb.so''
       = Some (Regular [0x41, 0x42, 0x00, 0x42, 0x43])
   \<and> fst (apply_patch ''libcovdb.so'' toy_patch (locked_disk [0x41, 0x42, 0x00, 0x42, 0x43]))
       = Inr OutputWriteFailed
   \<and> \<not> returned OutputWriteFailed
   \<and> files (snd (apply_patch ''libcovdb.so'' toy_patch (locked_disk [0x41, 0x42, 0x00, 0x42, 0x43])))
       ''libcovdb.so.patched'' = None
   \<and> files (linked_disk [0x41, 0x42, 0x00, 0x42, 0x43]) ''libcovdb.so''
       = Some (Regular [0x41, 0x42, 0x00, 0x42, 0x43])
   \<and> faults (linked_disk [0x41, 0x42, 0x00, 0x42, 0x43]) ''libcovdb.so.patched'' = None
   \<and> fst (apply_patch ''libcovdb.so'' toy_patch (linked_disk [0x41, 0x42, 0x00, 0x42, 0x43]))
       = Inr (Success ''libcovdb.so.patched'')
   \<and> files (snd (apply_patch ''libcovdb.so'' toy_patch (linked_disk [0x41, 0x42, 0x00, 0x42, 0x43])))
       ''libcovdb.so'' = Some (Regular [0x41, 0x42, 0x00, 0x58, 0x59])"
  by (simp add: apply_patch_def read_file_def write_file_def toy_patch_def locked_disk_def
      linked_disk_def files_def resolve_def encode_ascii_def bytes_in_def count_bytes.simps
      replace_first_def Let_def)

text \<open>
  C2, as amended. With equal-length patterns, a readable file whose buffer holds the
  encoded label, does not hold the replacement, and holds two occurrences of the
  target that do not overlap, \<open>apply_patch\<close> returns \<open>False\<close> through the ambiguous-match
  exit with the count (at least 2) that it prints; no file is created or changed, so
  the first occurrence is not patched.
\<close>

theorem apply_patch_ambiguous:
  assumes len: "length (target d) = length (replacement d)"
    and rd: "files s p = Some (Regular data)"
    and enc: "encode_ascii (description d) = Some label"
    and lab: "bytes_in label data"
    and fresh: "\<not> bytes_in (replacement d) data"
    and two: "data = a @ target d @ b @ target d @ c"
  shows "2 \<le> count_bytes data (target d)
       \<and> apply_patch p d s = (Inr (AmbiguousMatch (count_bytes data (target d))),
                               s\<lparr>trace := trace s @ [OpenRead p]\<rparr>)
       \<and> \<not> returned (AmbiguousMatch (count_bytes data (target d)))
       \<and> files (snd (apply_patch p d s)) = files s"
proof -
  from len fresh have "target d \<noteq> []"
    using bytes_in_Nil [of data] by auto
  with two have "2 \<le> count_bytes data (target d)"
    using count_bytes_two [of "target d" a b c] by simp
  with enc lab fresh show ?thesis
    by (simp add: apply_patch_read [OF len rd])
qed

theorem apply_patch_ambiguous_witness:
  "fst (apply_patch ''libcovdb.so'' toy_patch (disk [0x41, 0x42, 0x00, 0x42, 0x43, 0x90, 0x42, 0x43, 0xc3]))
     = Inr (AmbiguousMatch 2)
   \<and> files (snd (apply_patch ''libcovdb.so'' toy_patch (disk [0x41, 0x42, 0x00, 0x42, 0x43, 0x90, 0x42, 0x43, 0xc3])))
       ''libcovdb.so.patched'' = None"
proof -
  let ?data = "[0x41, 0x42, 0x00, 0x42, 0x43, 0x90, 0x42, 0x43, 0xc3] :: bytes"
  have "length (target toy_patch) = length (replacement toy_patch)"
    and "files (disk ?data) ''libcovdb.so'' = Some (Regular ?data)"
    and "encode_ascii (description toy_patch) = Some [0x41, 0x42]"
    and "bytes_in [0x41, 0x42] ?data"
    and "\<not> bytes_in (replacement toy_patch) ?data"
    and "?data = [0x41, 0x42, 0x00] @ target toy_patch @ [0x90] @ target toy_patch @ [0xc3]"
    by (simp_all add: toy_patch_def disk_def files_def resolve_def encode_ascii_def bytes_in_def)
  from apply_patch_ambiguous [OF this]
  show ?thesis by (simp add: disk_def files_def resolve_def toy_patch_def count_bytes.simps)
qed

text \<open>
  C2 as stated does not hold. A buffer with the label, two occurrences of the target
  and one of the replacement is answered \<open>AlreadyPatched\<close> (the function returns
  \<open>True\<close>), because the check at line 152 comes before the count; and a descriptor whose
  patterns differ in length is answered \<open>InvalidDescriptor\<close> whatever the buffer holds.
\<close>

theorem apply_patch_ambiguous_counterexample:
  "encode_ascii (description toy_patch) = Some [0x41, 0x42]
   \<and> bytes_in [0x41, 0x42] [0x41, 0x42, 0x42, 0x43, 0x58, 0x59, 0x42, 0x43]
   \<and> [0x41, 0x42, 0x42, 0x43, 0x58, 0x59, 0x42, 0x43]
       = [0x41, 0x42] @ target toy_patch @ [0x58, 0x59] @ target toy_patch @ []
   \<and> count_bytes [0x41, 0x42, 0x42, 0x43, 0x58, 0x59, 0x42, 0x43] (target toy_patch) = 2
   \<and> fst (apply_patch ''libcovdb.so'' toy_patch (disk [0x41, 0x42, 0x42, 0x43, 0x58, 0x59, 0x42, 0x43]))
       = Inr AlreadyPatched
   \<and> returned AlreadyPatched
   \<and> count_bytes [0x41, 0x42, 0x42, 0x43, 0x42, 0x43] (target (toy_patch\<lparr>replacement := [0x58]\<rparr>)) = 2
   \<and> fst (apply_patch ''libcovdb.so'' (toy_patch\<lparr>replacement := [0x58]\<rparr>)
            (disk [0x41, 0x42, 0x42, 0x43, 0x42, 0x43]))
       = Inr InvalidDescriptor"
  by (simp add: apply_patch_def read_file_def toy_patch_def disk_def files_def resolve_def
      encode_ascii_def bytes_in_def count_bytes.simps Let_def)

text \<open>
  C4, as amended. When \<open>apply_patch\<close> has succeeded and written the output file,
  applying the same descriptor to that output file returns \<open>AlreadyPatched\<close> if the
  encoded label occurs in the output file, and \<open>VersionMismatch\<close> if it does not.
\<close>

theorem apply_patch_rerun:
  assumes "fst (apply_patch p d s) = Inr (Success out)"
  shows "\<exists>label patched.
      encode_ascii (description d) = Some label
    \<and> files (snd (apply_patch p d s)) out = Some (Regular patched)
    \<and> fst (apply_patch out d (snd (apply_patch p d s)))
        = Inr (if bytes_in label patched then AlreadyPatched else VersionMismatch)"
proof -
  from apply_patch_SuccessD [OF assms] obtain data label where
    len: "length (target d) = length (replacement d)"
    and enc: "encode_ascii (description d) = Some label"
    and one: "count_bytes data (target d) = 1"
    and s': "snd (apply_patch p d s) =
        s\<lparr>trace := trace s @ [OpenRead p, OpenWrite out],
          store := (store s)(resolve s out \<mapsto> Regular (replace_first data (target d) (replacement d)))\<rparr>"
    by blast
  let ?patched = "replace_first data (target d) (replacement d)"
  from s' have rd: "files (snd (apply_patch p d s)) out = Some (Regular ?patched)"
    by simp
  from one obtain i where "find_bytes data (target d) = Some i"
    using count_bytes_pos [of data "target d"] by auto
  then have "bytes_in (replacement d) ?patched"
    by (rule replace_first_contains)
  with enc have "fst (apply_patch out d (snd (apply_patch p d s)))
        = Inr (if bytes_in label ?patched then AlreadyPatched else VersionMismatch)"
    by (simp add: apply_patch_read [OF len rd])
  with enc rd show ?thesis by blast
qed

theorem apply_patch_rerun_witness:
  "fst (apply_patch ''libcovdb.so'' toy_patch (disk [0x41, 0x42, 0x00, 0x42, 0x43]))
     = Inr (Success ''libcovdb.so.patched'')
   \<and> fst (apply_patch ''libcovdb.so.patched'' toy_patch
            (snd (apply_patch ''libcovdb.so'' toy_patch (disk [0x41, 0x42, 0x00, 0x42, 0x43]))))
     = Inr AlreadyPatched"
proof -
  let ?s = "disk [0x41, 0x42, 0x00, 0x42, 0x43]"
  have first: "fst (apply_patch ''libcovdb.so'' toy_patch ?s) = Inr (Success ''libcovdb.so.patched'')"
    by (simp add: apply_patch_def read_file_def write_file_def toy_patch_def disk_def files_def resolve_def
        encode_ascii_def bytes_in_def count_bytes.simps replace_first_def Let_def)
  have out: "files (snd (apply_patch ''libcovdb.so'' toy_patch ?s)) ''libcovdb.so.patched''
      = Some (Regular [0x41, 0x42, 0x00, 0x58, 0x59])"
    by (simp add: apply_patch_def read_file_def write_file_def toy_patch_def disk_def files_def resolve_def
        encode_ascii_def bytes_in_def count_bytes.simps replace_first_def Let_def)
  have enc: "encode_ascii (description toy_patch) = Some [0x41, 0x42]"
    by (simp add: toy_patch_def encode_ascii_def)
  from apply_patch_rerun [OF first] enc out
  have "fst (apply_patch ''libcovdb.so.patched'' toy_patch (snd (apply_patch ''libcovdb.so'' toy_patch ?s)))
      = Inr (if bytes_in [0x41, 0x42] [0x41, 0x42, 0x00, 0x58, 0x59] then AlreadyPatched else VersionMismatch)"
    by auto
  with first show ?thesis by (simp add: bytes_in_def)
qed

text \<open>
  C4 as stated does not hold. The label \<open>AB\<close> occurs once in \<open>ABC\<close> and overlaps the
  target \<open>BC\<close>; the first run succeeds and writes \<open>AXY\<close>, in which the label is gone, and
  the second run stops at the version check of line 142.
\<close>

theorem apply_patch_rerun_label_lost:
  "fst (apply_patch ''libcovdb.so'' toy_patch (disk [0x41, 0x42, 0x43]))
     = Inr (Success ''libcovdb.so.patched'')
   \<and> files (snd (apply_patch ''libcovdb.so'' toy_patch (disk [0x41, 0x42, 0x43]))) ''libcovdb.so.patched''
     = Some (Regular [0x41, 0x58, 0x59])
   \<and> fst (apply_patch ''libcovdb.so.patched'' toy_patch
            (snd (apply_patch ''libcovdb.so'' toy_patch (disk [0x41, 0x42, 0x43]))))
     = Inr VersionMismatch
   \<and> \<not> returned VersionMismatch"
  by (simp add: apply_patch_def read_file_def write_file_def toy_patch_def disk_def files_def resolve_def
      encode_ascii_def bytes_in_def count_bytes.simps replace_first_def Let_def)

end
